theory Spec2Isabelle
  imports Complex_Main "HOL-Library.FSet" "HOL-Library.Sublist"
begin

section \<open>Values shared by the models\<close>

text \<open>
  Identifiers of users and games are JavaScript numbers or strings; \<open>null\<close> is the
  \<open>None\<close> of \<open>js_id option\<close>. Strict equality (\<open>===\<close>) on these values is
  structural equality. A condition \<open>if (userId)\<close> tests truthiness: \<open>null\<close>, the
  number \<open>0\<close> and the empty string are falsy.

  Numbers that carry a rating are exact rationals: the model has no rounding error of
  binary floating point and no \<open>NaN\<close>.
\<close>

datatype js_id = NumId int | StrId string



section \<open>Game: ratings and the stored average\<close>









definition round1 :: "rat \<Rightarrow> rat" where
  "round1 q = of_int (round (q * 10)) / 10"




section \<open>Game: similar games\<close>








section \<open>Review: helpful and unhelpful votes\<close>

text \<open>
  The two \<open>Set\<close>s of voter ids are finite sets; \<open>delete\<close> removes an element,
  \<open>add\<close> inserts one, \<open>size\<close> is the cardinality. The fields \<open>stat_helpfulVotes\<close> and
  \<open>stat_unhelpfulVotes\<close> are \<open>stats.helpfulVotes\<close> and \<open>stats.unhelpfulVotes\<close>.
\<close>

record review_stats =
  views :: nat
  stat_helpfulVotes :: nat
  stat_unhelpfulVotes :: nat
  replies :: nat
  reports :: nat
  shares :: nat

text \<open>The fields of a \<open>Review\<close> that the voting methods read or write.\<close>

record review =
  review_userId :: "js_id option"
  review_stats :: review_stats
  review_updatedAt :: nat
  helpfulVotes :: "js_id option fset"
  unhelpfulVotes :: "js_id option fset"

text \<open>\<open>Review.addHelpfulVote(userId)\<close>; \<open>now\<close> is the value of \<open>new Date()\<close>.\<close>

definition addHelpfulVote :: "js_id option \<Rightarrow> nat \<Rightarrow> review \<Rightarrow> bool \<times> review" where
  "addHelpfulVote userId now r =
     (if userId = review_userId r then (False, r)
      else
        let r1 = r\<lparr>unhelpfulVotes := unhelpfulVotes r |-| {|userId|}\<rparr>;
            wasAdded = (\<not> userId |\<in>| helpfulVotes r1);
            r2 = r1\<lparr>helpfulVotes := finsert userId (helpfulVotes r1)\<rparr>
        in if wasAdded
           then (wasAdded,
                 r2\<lparr>review_stats := (review_stats r2)
                        \<lparr>stat_helpfulVotes := fcard (helpfulVotes r2),
                         stat_unhelpfulVotes := fcard (unhelpfulVotes r2)\<rparr>,
                    review_updatedAt := now\<rparr>)
           else (wasAdded, r2))"

text \<open>\<open>Review.addUnhelpfulVote(userId)\<close>.\<close>

definition addUnhelpfulVote :: "js_id option \<Rightarrow> nat \<Rightarrow> review \<Rightarrow> bool \<times> review" where
  "addUnhelpfulVote userId now r =
     (if userId = review_userId r then (False, r)
      else
        let r1 = r\<lparr>helpfulVotes := helpfulVotes r |-| {|userId|}\<rparr>;
            wasAdded = (\<not> userId |\<in>| unhelpfulVotes r1);
            r2 = r1\<lparr>unhelpfulVotes := finsert userId (unhelpfulVotes r1)\<rparr>
        in if wasAdded
           then (wasAdded,
                 r2\<lparr>review_stats := (review_stats r2)
                        \<lparr>stat_helpfulVotes := fcard (helpfulVotes r2),
                         stat_unhelpfulVotes := fcard (unhelpfulVotes r2)\<rparr>,
                    review_updatedAt := now\<rparr>)
           else (wasAdded, r2))"

text \<open>\<open>Review.removeVote(userId)\<close>.\<close>

definition removeVote :: "js_id option \<Rightarrow> nat \<Rightarrow> review \<Rightarrow> bool \<times> review" where
  "removeVote userId now r =
     (let hadHelpful = userId |\<in>| helpfulVotes r;
          hadUnhelpful = userId |\<in>| unhelpfulVotes r;
          r1 = r\<lparr>helpfulVotes := helpfulVotes r |-| {|userId|},
                 unhelpfulVotes := unhelpfulVotes r |-| {|userId|}\<rparr>
      in if hadHelpful \<or> hadUnhelpful
         then (True,
               r1\<lparr>review_stats := (review_stats r1)
                      \<lparr>stat_helpfulVotes := fcard (helpfulVotes r1),
                       stat_unhelpfulVotes := fcard (unhelpfulVotes r1)\<rparr>,
                  review_updatedAt := now\<rparr>)
         else (False, r1))"

text \<open>Calls of the three voting methods, and a sequence of them run in order.\<close>

datatype vote_call =
  HelpfulVote "js_id option" nat
| UnhelpfulVote "js_id option" nat
| RemoveVote "js_id option" nat

fun voter :: "vote_call \<Rightarrow> js_id option" where
  "voter (HelpfulVote v now) = v"
| "voter (UnhelpfulVote v now) = v"
| "voter (RemoveVote v now) = v"

fun vote :: "vote_call \<Rightarrow> review \<Rightarrow> review" where
  "vote (HelpfulVote v now) r = snd (addHelpfulVote v now r)"
| "vote (UnhelpfulVote v now) r = snd (addUnhelpfulVote v now r)"
| "vote (RemoveVote v now) r = snd (removeVote v now r)"

fun votes :: "vote_call list \<Rightarrow> review \<Rightarrow> review" where
  "votes [] r = r"
| "votes (c # cs) r = votes cs (vote c r)"

text \<open>A review by user 1 without votes.\<close>

definition new_review :: review where
  "new_review =
     \<lparr>review_userId = Some (NumId 1),
      review_stats = \<lparr>views = 0, stat_helpfulVotes = 0, stat_unhelpfulVotes = 0,
                      replies = 0, reports = 0, shares = 0\<rparr>,
      review_updatedAt = 0, helpfulVotes = {||}, unhelpfulVotes = {||}\<rparr>"

section \<open>User: friends and blocked users\<close>

text \<open>
  The \<open>stats\<close> aggregate, an entry of \<open>recentActivity\<close>, and the fields of a \<open>User\<close>
  that \<open>addFriend\<close> and \<open>blockUser\<close> read or write.
\<close>

record user_stats =
  gamesOwned :: nat
  gamesPlayed :: nat
  gamesCompleted :: nat
  hoursPlayed :: rat
  reviewsWritten :: nat
  ratingsGiven :: nat
  achievementsUnlocked :: nat
  friendsCount :: nat
  followersCount :: nat
  followingCount :: nat

record activity =
  activity_type :: string
  activity_data :: "js_id option"
  activity_timestamp :: nat
  activity_id :: string

record user =
  user_id :: "js_id option"
  user_stats :: user_stats
  user_updatedAt :: nat
  friends :: "js_id option fset"
  blockedUsers :: "js_id option fset"
  recentActivity :: "activity list"

text \<open>
  \<open>User.updateStats(newStats)\<close>: the given fields overwrite those of \<open>stats\<close>, here as
  a function on the statistics, and \<open>updatedAt\<close> becomes the current time.
\<close>

definition updateStats :: "(user_stats \<Rightarrow> user_stats) \<Rightarrow> nat \<Rightarrow> user \<Rightarrow> user" where
  "updateStats newStats now u = u\<lparr>user_stats := newStats (user_stats u), user_updatedAt := now\<rparr>"

text \<open>
  \<open>User.addActivity(type, data)\<close>: the new entry goes to the front and the list is cut
  to its first 100 entries. \<open>aid\<close> is the generated id of the entry (it holds the time
  and a random suffix).
\<close>

definition addActivity :: "string \<Rightarrow> js_id option \<Rightarrow> nat \<Rightarrow> string \<Rightarrow> user \<Rightarrow> user" where
  "addActivity type data now aid u =
     (let act = \<lparr>activity_type = type, activity_data = data, activity_timestamp = now,
                 activity_id = aid\<rparr>;
          u1 = u\<lparr>recentActivity := act # recentActivity u\<rparr>
      in if length (recentActivity u1) > 100
         then u1\<lparr>recentActivity := take 100 (recentActivity u1)\<rparr>
         else u1)"

text \<open>\<open>User.addFriend(userId)\<close>.\<close>

definition addFriend :: "js_id option \<Rightarrow> nat \<Rightarrow> string \<Rightarrow> user \<Rightarrow> bool \<times> user" where
  "addFriend userId now aid u =
     (if userId |\<in>| friends u \<or> userId = user_id u then (False, u)
      else
        let u1 = u\<lparr>friends := finsert userId (friends u)\<rparr>;
            u2 = updateStats (\<lambda>s. s\<lparr>friendsCount := fcard (friends u1)\<rparr>) now u1;
            u3 = addActivity ''friend_add'' userId now aid u2
        in (True, u3))"

text \<open>\<open>User.blockUser(userId)\<close>.\<close>

definition blockUser :: "js_id option \<Rightarrow> user \<Rightarrow> bool \<times> user" where
  "blockUser userId u =
     (if userId |\<in>| blockedUsers u \<or> userId = user_id u then (False, u)
      else
        let u1 = u\<lparr>blockedUsers := finsert userId (blockedUsers u)\<rparr>;
            u2 = u1\<lparr>friends := friends u1 |-| {|userId|}\<rparr>
        in (True, u2))"

text \<open>User 1 with user 2 as a friend and nobody blocked.\<close>

definition alice :: user where
  "alice =
     \<lparr>user_id = Some (NumId 1),
      user_stats = \<lparr>gamesOwned = 0, gamesPlayed = 0, gamesCompleted = 0, hoursPlayed = 0,
                    reviewsWritten = 0, ratingsGiven = 0, achievementsUnlocked = 0,
                    friendsCount = 1, followersCount = 0, followingCount = 0\<rparr>,
      user_updatedAt = 0, friends = {|Some (NumId 2)|}, blockedUsers = {||},
      recentActivity = []\<rparr>"

section \<open>Event emitters\<close>

text \<open>
  A listener is a callback with a name to tell it from the others. Called with the
  event's data it returns normally (\<open>None\<close>) or throws an error (\<open>Some\<close> of its message).
  An emission yields the names of the listeners that were called, in order, the messages
  written by \<open>console.error\<close>, and the error that leaves \<open>emit\<close>, if any.
\<close>

record 'd listener =
  listener_name :: string
  listener_callback :: "'d \<Rightarrow> string option"

record emission =
  called :: "string list"
  logged :: "string list"
  thrown :: "string option"

text \<open>
  \<open>emit\<close> of \<open>User\<close>, \<open>Game\<close> and \<open>Review\<close>: \<open>forEach\<close> over the listeners of the
  event, each call inside its own \<open>try\<close>/\<open>catch\<close> that logs the error.
\<close>

fun entity_forEach :: "'d listener list \<Rightarrow> 'd \<Rightarrow> emission" where
  "entity_forEach [] data = \<lparr>called = [], logged = [], thrown = None\<rparr>"
| "entity_forEach (l # ls) data =
     (let rest = entity_forEach ls data
      in case listener_callback l data of
           None \<Rightarrow> rest\<lparr>called := listener_name l # called rest\<rparr>
         | Some error \<Rightarrow> rest\<lparr>called := listener_name l # called rest,
                               logged := error # logged rest\<rparr>)"

definition entity_emit :: "(string \<rightharpoonup> 'd listener list) \<Rightarrow> string \<Rightarrow> 'd \<Rightarrow> emission" where
  "entity_emit listeners event data =
     (case listeners event of
        None \<Rightarrow> \<lparr>called = [], logged = [], thrown = None\<rparr>
      | Some ls \<Rightarrow> entity_forEach ls data)"

text \<open>
  \<open>EventEmitter.emit\<close> of \<open>utils.js\<close>, the base class of \<open>ApiService\<close>,
  \<open>StateManager\<close> and \<open>AuthManager\<close>: \<open>forEach(callback => callback(data))\<close> with no
  \<open>try\<close>. An error thrown by a callback ends the \<open>forEach\<close> and leaves \<open>emit\<close>.
\<close>

fun EventEmitter_forEach :: "'d listener list \<Rightarrow> 'd \<Rightarrow> emission" where
  "EventEmitter_forEach [] data = \<lparr>called = [], logged = [], thrown = None\<rparr>"
| "EventEmitter_forEach (l # ls) data =
     (case listener_callback l data of
        None \<Rightarrow> (let rest = EventEmitter_forEach ls data
                 in rest\<lparr>called := listener_name l # called rest\<rparr>)
      | Some error \<Rightarrow> \<lparr>called = [listener_name l], logged = [], thrown = Some error\<rparr>)"

definition EventEmitter_emit :: "(string \<rightharpoonup> 'd listener list) \<Rightarrow> string \<Rightarrow> 'd \<Rightarrow> emission" where
  "EventEmitter_emit events event data =
     (case events event of
        None \<Rightarrow> \<lparr>called = [], logged = [], thrown = None\<rparr>
      | Some ls \<Rightarrow> EventEmitter_forEach ls data)"

text \<open>Two listeners of one event: the first throws, the second returns.\<close>

definition faulty :: "nat listener" where
  "faulty = \<lparr>listener_name = ''faulty'', listener_callback = (\<lambda>d. Some ''boom'')\<rparr>"

definition sound :: "nat listener" where
  "sound = \<lparr>listener_name = ''sound'', listener_callback = (\<lambda>d. None)\<rparr>"

definition two_listeners :: "string \<rightharpoonup> nat listener list" where
  "two_listeners = [''change'' \<mapsto> [faulty, sound]]"

section \<open>ApiService: retries and the response cache\<close>

text \<open>
  JavaScript values, as a response body or a form field holds them. Objects other than
  arrays (and blobs) are kept opaque. Arrays and objects are always truthy.
\<close>

datatype jsval =
  JUndefined
| JNull
| JBool bool
| JNum rat
| JStr string
| JArray "jsval list"
| JObject string

fun truthy :: "jsval \<Rightarrow> bool" where
  "truthy JUndefined = False"
| "truthy JNull = False"
| "truthy (JBool b) = b"
| "truthy (JNum n) = (n \<noteq> 0)"
| "truthy (JStr s) = (s \<noteq> [])"
| "truthy (JArray xs) = True"
| "truthy (JObject x) = True"

text \<open>
  The configuration of one request, after the defaults and the options of the call
  are merged and \<open>buildURL\<close> has made the full URL.
\<close>

record api_config =
  cfg_url :: string
  cfg_method :: string
  cfg_timeout :: nat
  cfg_retries :: nat
  cfg_retryDelay :: nat
  cfg_cache :: bool
  cfg_cacheExpiry :: nat

text \<open>
  What one attempt (\<open>fetchWithTimeout\<close> followed by \<open>processResponse\<close>) yields: a
  response with \<open>ok\<close> true, or a thrown error, which carries the HTTP status of a response
  that is not ok and no status for a network failure or a timeout.
\<close>

datatype attempt_outcome =
  HttpOk nat jsval
| HttpError nat
| NetworkError

record response =
  resp_ok :: bool
  resp_status :: nat
  resp_data :: jsval

text \<open>\<open>error.status\<close> of a thrown error: \<open>None\<close> is \<open>undefined\<close>.\<close>

fun error_status :: "attempt_outcome \<Rightarrow> nat option" where
  "error_status (HttpError s) = Some s"
| "error_status _ = None"

text \<open>
  \<open>createErrorResponse\<close>: \<open>status\<close> is \<open>error.status || 0\<close>, \<open>data\<close> is \<open>null\<close>.
\<close>

definition createErrorResponse :: "attempt_outcome \<Rightarrow> response" where
  "createErrorResponse error =
     \<lparr>resp_ok = False,
      resp_status = (case error_status error of None \<Rightarrow> 0 | Some s \<Rightarrow> s),
      resp_data = JNull\<rparr>"

text \<open>
  The test that ends the retries: a client error (4xx) other than 408 and 429. A
  comparison with an \<open>undefined\<close> status is false.
\<close>

definition no_retry_status :: "nat option \<Rightarrow> bool" where
  "no_retry_status status =
     (case status of
        None \<Rightarrow> False
      | Some s \<Rightarrow> s \<ge> 400 \<and> s < 500 \<and> s \<noteq> 408 \<and> s \<noteq> 429)"

text \<open>
  The network activity of a request, in order: attempt number \<open>n\<close> was sent, or the
  request slept for a number of milliseconds.
\<close>

datatype net_event = Attempt nat | Delay nat

text \<open>
  What \<open>executeRequest\<close> settles with. With the interceptors that the constructor
  installs, a response passes unchanged and an error response comes back as a rejected
  promise. \<open>TypeError\<close> is reading \<open>status\<close> of an \<open>undefined\<close> \<open>lastError\<close>.
\<close>

datatype settled =
  Resolved response
| Rejected response
| TypeError

text \<open>
  The loop of \<open>ApiService.executeRequest\<close>, from attempt number \<open>attempt\<close> with the
  current \<open>lastError\<close>. \<open>net n\<close> is what attempt \<open>n\<close> yields. The events emitted on the
  way have no subscriber that throws.
\<close>

function attempt_loop ::
  "api_config \<Rightarrow> (nat \<Rightarrow> attempt_outcome) \<Rightarrow> nat \<Rightarrow> attempt_outcome option
     \<Rightarrow> settled \<times> net_event list" where
  "attempt_loop config net attempt lastError =
     (if attempt \<le> cfg_retries config
      then
        (case net attempt of
           HttpOk status data \<Rightarrow>
             (Resolved \<lparr>resp_ok = True, resp_status = status, resp_data = data\<rparr>,
              [Attempt attempt])
         | error \<Rightarrow>
             if no_retry_status (error_status error)
             then (Rejected (createErrorResponse error), [Attempt attempt])
             else if attempt = cfg_retries config
             then (Rejected (createErrorResponse error), [Attempt attempt])
             else
               let (result, trace) = attempt_loop config net (attempt + 1) (Some error)
               in (result,
                   Attempt attempt # Delay (cfg_retryDelay config * 2 ^ attempt) # trace))
      else
        (case lastError of
           None \<Rightarrow> (TypeError, [])
         | Some error \<Rightarrow> (Rejected (createErrorResponse error), [])))"
  by pat_completeness auto
termination
  by (relation "measure (\<lambda>(config, net, attempt, lastError). cfg_retries config + 1 - attempt)")
    auto

declare attempt_loop.simps [simp del]

definition executeRequest :: "api_config \<Rightarrow> (nat \<Rightarrow> attempt_outcome) \<Rightarrow> settled \<times> net_event list" where
  "executeRequest config net = attempt_loop config net 0 None"

text \<open>
  The trace of attempts \<open>a\<close> to \<open>m\<close> with the exponential backoff between them: after
  attempt \<open>k\<close> fails the request sleeps \<open>retryDelay * 2 ^ k\<close> before attempt \<open>k + 1\<close>.
\<close>

definition backoff_trace :: "api_config \<Rightarrow> nat \<Rightarrow> nat \<Rightarrow> net_event list" where
  "backoff_trace config a m =
     concat (map (\<lambda>k. [Attempt k, Delay (cfg_retryDelay config * 2 ^ k)]) [a..<m]) @ [Attempt m]"

text \<open>
  An attempt after which the loop stops whatever the number of retries left: it
  succeeded, or it failed with a client error that is not retried.
\<close>

definition ends_retries :: "attempt_outcome \<Rightarrow> bool" where
  "ends_retries outcome =
     (case outcome of
        HttpOk status data \<Rightarrow> True
      | error \<Rightarrow> no_retry_status (error_status error))"

text \<open>The configuration that the constructor's defaults give a GET of \<open>/games\<close>.\<close>

definition default_config :: api_config where
  "default_config =
     \<lparr>cfg_url = ''https://api.gamevault.com/games'', cfg_method = ''GET'',
      cfg_timeout = 10000, cfg_retries = 3, cfg_retryDelay = 1000, cfg_cache = False,
      cfg_cacheExpiry = 300000\<rparr>"

text \<open>
  The response cache: a \<open>Map\<close> from the full URL to the cached data with its expiry
  time. The state of the service is the cache together with the network activity so far.
  Requests are made one after the other, each settled before the next starts, so the map
  of pending requests is empty at every call and is left out.
\<close>

record cache_entry =
  entry_data :: jsval
  entry_expiry :: nat
  entry_timestamp :: nat

record api_state =
  cache :: "string \<rightharpoonup> cache_entry"
  net_log :: "net_event list"

text \<open>
  \<open>ApiService.getFromCache(key)\<close> at time \<open>now\<close>: the cached data, or \<open>null\<close> after
  deleting an expired entry.
\<close>

definition getFromCache :: "string \<Rightarrow> nat \<Rightarrow> api_state \<Rightarrow> jsval \<times> api_state" where
  "getFromCache key now st =
     (case cache st key of
        None \<Rightarrow> (JNull, st)
      | Some cached \<Rightarrow>
          if entry_expiry cached > now then (entry_data cached, st)
          else (JNull, st\<lparr>cache := (cache st)(key := None)\<rparr>))"

text \<open>\<open>ApiService.setCache(key, data, expiry)\<close> at time \<open>now\<close>.\<close>

definition setCache :: "string \<Rightarrow> jsval \<Rightarrow> nat \<Rightarrow> nat \<Rightarrow> api_state \<Rightarrow> api_state" where
  "setCache key data expiry now st =
     st\<lparr>cache := (cache st)(key \<mapsto>
          \<lparr>entry_data = data, entry_expiry = now + expiry, entry_timestamp = now\<rparr>)\<rparr>"

text \<open>The decimal digits of a number, as a template literal prints it.\<close>

function show_nat :: "nat \<Rightarrow> string" where
  "show_nat n =
     (if n < 10 then [char_of (48 + n)]
      else show_nat (n div 10) @ [char_of (48 + n mod 10)])"
  by pat_completeness auto
termination
  by (relation "measure id") auto

declare show_nat.simps [simp del]

text \<open>
  The request interceptor that the constructor installs: a GET that is not to be cached
  gets the parameter \<open>_t\<close> with the current time appended to its URL. (The
  \<open>Authorization\<close> header it sets is not part of the model.)
\<close>

definition default_request_interceptor :: "nat \<Rightarrow> api_config \<Rightarrow> api_config" where
  "default_request_interceptor now config =
     (if cfg_method config = ''GET'' \<and> \<not> cfg_cache config
      then
        let separator = (if CHR ''?'' \<in> set (cfg_url config) then ''&'' else ''?'')
        in config\<lparr>cfg_url := cfg_url config @ separator @ ''_t='' @ show_nat now\<rparr>
      else config)"

text \<open>What \<open>request\<close> gives its caller: the cached data, or what \<open>executeRequest\<close> settled with.\<close>

datatype request_result =
  FromCache jsval
| Settled settled

text \<open>
  \<open>ApiService.request\<close> after the cache check: \<open>executeRequest\<close>, and for a GET with
  caching enabled and a response that is ok, \<open>setCache\<close> at the time \<open>now'\<close> at which the
  response arrived.
\<close>

definition dispatch ::
  "api_config \<Rightarrow> nat \<Rightarrow> (nat \<Rightarrow> attempt_outcome) \<Rightarrow> api_state \<Rightarrow> request_result \<times> api_state" where
  "dispatch finalConfig now' net st =
     (let (result, trace) = executeRequest finalConfig net;
          st1 = st\<lparr>net_log := net_log st @ trace\<rparr>
      in case result of
           Resolved response \<Rightarrow>
             if cfg_cache finalConfig \<and> cfg_method finalConfig = ''GET'' \<and> resp_ok response
             then (Settled result,
                   setCache (cfg_url finalConfig) (resp_data response)
                     (cfg_cacheExpiry finalConfig) now' st1)
             else (Settled result, st1)
         | _ \<Rightarrow> (Settled result, st1))"

text \<open>
  \<open>ApiService.request\<close> for the merged configuration, called at time \<open>now\<close>: the request
  interceptor, then the cache check \<open>if (cached)\<close> on the data that \<open>getFromCache\<close>
  returns, then the dispatch.
\<close>

definition request ::
  "api_config \<Rightarrow> nat \<Rightarrow> nat \<Rightarrow> (nat \<Rightarrow> attempt_outcome) \<Rightarrow> api_state \<Rightarrow> request_result \<times> api_state" where
  "request config now now' net st =
     (let finalConfig = default_request_interceptor now config
      in if cfg_cache finalConfig \<and> cfg_method finalConfig = ''GET''
         then
           let (cached, st1) = getFromCache (cfg_url finalConfig) now st
           in if truthy cached then (FromCache cached, st1)
              else dispatch finalConfig now' net st1
         else dispatch finalConfig now' net st)"

text \<open>A service that has made no request, and the default configuration with caching enabled.\<close>

definition new_service :: api_state where
  "new_service = \<lparr>cache = Map.empty, net_log = []\<rparr>"

definition cached_config :: api_config where
  "cached_config = default_config\<lparr>cfg_cache := True\<rparr>"

section \<open>FormValidator\<close>

text \<open>
  The data of a form is an object from field names to values; reading a field that it
  does not have gives \<open>undefined\<close>.
\<close>

type_synonym form_data = "string \<rightharpoonup> jsval"

definition field_value :: "form_data \<Rightarrow> string \<Rightarrow> jsval" where
  "field_value data field = (case data field of None \<Rightarrow> JUndefined | Some v \<Rightarrow> v)"

text \<open>
  A validator is called with the value, the parameter of the rule (\<open>None\<close> is
  \<open>undefined\<close>) and all the data. It returns a truthy or falsy result (\<open>Inr\<close>), or
  throws (\<open>Inl\<close> of the error message).
\<close>

type_synonym validator = "jsval \<Rightarrow> string option \<Rightarrow> form_data \<Rightarrow> string + bool"

text \<open>
  A \<open>FormValidator\<close>: the rule set in the order in which \<open>for ... in\<close> visits its
  fields, the registry \<open>customValidators\<close> and the message templates.
\<close>

record form_validator =
  fv_rules :: "(string \<times> string list) list"
  fv_customValidators :: "string \<rightharpoonup> validator"
  fv_messages :: "string \<rightharpoonup> string"

text \<open>\<open>String.prototype.split\<close> with a one-character separator.\<close>

fun split_on :: "char \<Rightarrow> string \<Rightarrow> string list" where
  "split_on c [] = [[]]"
| "split_on c (x # xs) =
     (if x = c then [] # split_on c xs
      else (case split_on c xs of
              [] \<Rightarrow> [[x]]
            | p # ps \<Rightarrow> (x # p) # ps))"

text \<open>
  \<open>const [ruleName, parameter] = rule.split(':')\<close>: the first two pieces; the
  parameter is \<open>undefined\<close> when there is no colon.
\<close>

definition ruleName_of :: "string \<Rightarrow> string" where
  "ruleName_of rule = (case split_on CHR '':'' rule of [] \<Rightarrow> [] | n # ps \<Rightarrow> n)"

definition parameter_of :: "string \<Rightarrow> string option" where
  "parameter_of rule =
     (case split_on CHR '':'' rule of
        n # p # ps \<Rightarrow> Some p
      | _ \<Rightarrow> None)"

text \<open>
  \<open>message.replace(pattern, value)\<close> for a string pattern: the first occurrence is
  replaced. (The \<open>$\<close> patterns of a replacement string are not modelled.)
\<close>

fun replace_first :: "string \<Rightarrow> string \<Rightarrow> string \<Rightarrow> string" where
  "replace_first pat rep [] = (if pat = [] then rep else [])"
| "replace_first pat rep (c # cs) =
     (if prefix pat (c # cs) then rep @ drop (length pat) (c # cs)
      else c # replace_first pat rep cs)"

text \<open>
  \<open>FormValidator.formatMessage(rule, params)\<close>: the template of the rule, or
  \<open>'Invalid value'\<close>, with \<open>{key}\<close> replaced for each parameter in order. An
  \<open>undefined\<close> value is written \<open>undefined\<close>.
\<close>

definition formatMessage :: "form_validator \<Rightarrow> string \<Rightarrow> (string \<times> string option) list \<Rightarrow> string" where
  "formatMessage fv rule params =
     (let message = (case fv_messages fv rule of
                       None \<Rightarrow> ''Invalid value''
                     | Some m \<Rightarrow> if m = [] then ''Invalid value'' else m)
      in foldl (\<lambda>message (key, v).
                  replace_first (''{'' @ key @ ''}'')
                    (case v of None \<Rightarrow> ''undefined'' | Some x \<Rightarrow> x) message)
           message params)"

record field_result =
  fr_valid :: bool
  fr_errors :: "string list"

text \<open>
  The loop of \<open>FormValidator.validateField\<close> over the rules of the field, with the
  errors collected so far. An error thrown by a validator leaves the loop.
\<close>

fun validate_rules ::
  "form_validator \<Rightarrow> string \<Rightarrow> jsval \<Rightarrow> form_data \<Rightarrow> string list \<Rightarrow> string list
     \<Rightarrow> string + string list" where
  "validate_rules fv field v allData [] errors = Inr errors"
| "validate_rules fv field v allData (rule # rest) errors =
     (let ruleName = ruleName_of rule; parameter = parameter_of rule
      in if ruleName = ''confirmPassword''
         then
           let passwordField = (case parameter of
                                  None \<Rightarrow> ''password''
                                | Some p \<Rightarrow> if p = [] then ''password'' else p)
           in if v \<noteq> field_value allData passwordField
              then validate_rules fv field v allData rest
                     (errors @ [formatMessage fv ''confirmPassword''
                                  [(''field'', Some passwordField)]])
              else validate_rules fv field v allData rest errors
         else if ruleName = ''unique''
         then validate_rules fv field v allData rest errors
         else
           (case fv_customValidators fv ruleName of
              None \<Rightarrow> validate_rules fv field v allData rest errors
            | Some validator \<Rightarrow>
                (case validator v parameter allData of
                   Inl err \<Rightarrow> Inl err
                 | Inr isValid \<Rightarrow>
                     if \<not> isValid
                     then validate_rules fv field v allData rest
                            (errors @ [formatMessage fv ruleName
                                         [(''min'', parameter), (''max'', parameter),
                                          (''field'', Some field)]])
                     else validate_rules fv field v allData rest errors)))"

text \<open>\<open>FormValidator.validateField(field, value, allData)\<close>.\<close>

definition validateField ::
  "form_validator \<Rightarrow> string \<Rightarrow> jsval \<Rightarrow> form_data \<Rightarrow> string + field_result" where
  "validateField fv field v allData =
     (let fieldRules = (case map_of (fv_rules fv) field of None \<Rightarrow> [] | Some rs \<Rightarrow> rs)
      in case validate_rules fv field v allData fieldRules [] of
           Inl err \<Rightarrow> Inl err
         | Inr errors \<Rightarrow> Inr \<lparr>fr_valid = (length errors = 0), fr_errors = errors\<rparr>)"

record validation_result =
  vr_valid :: bool
  vr_errors :: "string \<rightharpoonup> string"
  vr_fieldErrors :: "string \<rightharpoonup> string list"

text \<open>The loop of \<open>FormValidator.validate\<close> over the fields of the rule set.\<close>

fun validate_fields ::
  "form_validator \<Rightarrow> form_data \<Rightarrow> string list \<Rightarrow> validation_result
     \<Rightarrow> string + validation_result" where
  "validate_fields fv data [] result = Inr result"
| "validate_fields fv data (field # others) result =
     (case validateField fv field (field_value data field) data of
        Inl err \<Rightarrow> Inl err
      | Inr fieldResult \<Rightarrow>
          if \<not> fr_valid fieldResult
          then validate_fields fv data others
                 (result\<lparr>vr_valid := False,
                         vr_fieldErrors := (vr_fieldErrors result)(field \<mapsto> fr_errors fieldResult),
                         vr_errors := (vr_errors result)(field \<mapsto> hd (fr_errors fieldResult))\<rparr>)
          else validate_fields fv data others result)"

text \<open>\<open>FormValidator.validate(data)\<close>.\<close>

definition validate :: "form_validator \<Rightarrow> form_data \<Rightarrow> string + validation_result" where
  "validate fv data =
     validate_fields fv data (map fst (fv_rules fv))
       \<lparr>vr_valid = True, vr_errors = Map.empty, vr_fieldErrors = Map.empty\<rparr>"

subsection \<open>Built-in validators\<close>

definition is_space :: "char \<Rightarrow> bool" where
  "is_space c = (c \<in> set [CHR '' '', CHR 0x09, CHR 0x0A, CHR 0x0B, CHR 0x0C, CHR 0x0D])"

definition trim :: "string \<Rightarrow> string" where
  "trim s = rev (dropWhile is_space (rev (dropWhile is_space s)))"

text \<open>The validator \<open>required\<close>.\<close>

fun required_validator :: validator where
  "required_validator JNull parameter allData = Inr False"
| "required_validator JUndefined parameter allData = Inr False"
| "required_validator (JStr s) parameter allData = Inr (length (trim s) > 0)"
| "required_validator (JArray xs) parameter allData = Inr (length xs > 0)"
| "required_validator v parameter allData = Inr True"

definition is_digit :: "char \<Rightarrow> bool" where
  "is_digit c = (48 \<le> (of_char c :: nat) \<and> (of_char c :: nat) \<le> 57)"

definition digit_value :: "char \<Rightarrow> nat" where
  "digit_value c = of_char c - 48"

text \<open>
  The loop of the validator \<open>creditCard\<close> (the Luhn sum), from the last digit to the
  first: \<open>ds\<close> is the rest of the digits in that order and \<open>acc\<close> the variable \<open>sum\<close>.
\<close>

fun luhn_loop :: "nat list \<Rightarrow> bool \<Rightarrow> nat \<Rightarrow> nat" where
  "luhn_loop [] isEven acc = acc"
| "luhn_loop (d # ds) isEven acc =
     (let digit = (if isEven then (if d * 2 > 9 then d * 2 - 9 else d * 2) else d)
      in luhn_loop ds (\<not> isEven) (acc + digit))"

text \<open>
  The validator \<open>creditCard\<close>. It starts with \<open>value.replace(/\s/g, '')\<close>, which throws
  a \<open>TypeError\<close> unless the value is a string.
\<close>

fun creditCard_validator :: validator where
  "creditCard_validator (JStr s) parameter allData =
     (let cleanValue = filter (\<lambda>c. \<not> is_space c) s
      in if \<not> (list_all is_digit cleanValue \<and> 13 \<le> length cleanValue \<and> length cleanValue \<le> 19)
         then Inr False
         else Inr (luhn_loop (rev (map digit_value cleanValue)) False 0 mod 10 = 0))"
| "creditCard_validator JUndefined parameter allData =
     Inl ''TypeError: Cannot read properties of undefined (reading replace)''"
| "creditCard_validator JNull parameter allData =
     Inl ''TypeError: Cannot read properties of null (reading replace)''"
| "creditCard_validator v parameter allData =
     Inl ''TypeError: value.replace is not a function''"

text \<open>
  A validator with the rule set of the card number from \<open>ValidationRules.payment\<close>, the
  two built-in validators it names and their messages.
\<close>

definition card_validator :: form_validator where
  "card_validator =
     \<lparr>fv_rules = [(''cardNumber'', [''required'', ''creditCard''])],
      fv_customValidators =
        [''required'' \<mapsto> required_validator, ''creditCard'' \<mapsto> creditCard_validator],
      fv_messages =
        [''required'' \<mapsto> ''This field is required'',
         ''creditCard'' \<mapsto> ''Please enter a valid credit card number'']\<rparr>"

subsection \<open>What a failing rule is\<close>

text \<open>
  The rules of a field, and for one rule on a value: whether it fails (the compared
  fields differ for \<open>confirmPassword\<close>, the validator returns a falsy result otherwise;
  \<open>unique\<close> and a rule without a validator never fail), whether its validator throws,
  and the message it contributes when it fails.
\<close>

definition field_rules :: "form_validator \<Rightarrow> string \<Rightarrow> string list" where
  "field_rules fv field = (case map_of (fv_rules fv) field of None \<Rightarrow> [] | Some rs \<Rightarrow> rs)"

definition passwordField_of :: "string \<Rightarrow> string" where
  "passwordField_of rule =
     (case parameter_of rule of None \<Rightarrow> ''password'' | Some p \<Rightarrow> if p = [] then ''password'' else p)"

definition rule_fails :: "form_validator \<Rightarrow> jsval \<Rightarrow> form_data \<Rightarrow> string \<Rightarrow> bool" where
  "rule_fails fv v allData rule =
     (if ruleName_of rule = ''confirmPassword''
      then v \<noteq> field_value allData (passwordField_of rule)
      else if ruleName_of rule = ''unique'' then False
      else (case fv_customValidators fv (ruleName_of rule) of
              None \<Rightarrow> False
            | Some validator \<Rightarrow> validator v (parameter_of rule) allData = Inr False))"

definition rule_throws :: "form_validator \<Rightarrow> jsval \<Rightarrow> form_data \<Rightarrow> string \<Rightarrow> bool" where
  "rule_throws fv v allData rule =
     (if ruleName_of rule = ''confirmPassword'' \<or> ruleName_of rule = ''unique'' then False
      else (case fv_customValidators fv (ruleName_of rule) of
              None \<Rightarrow> False
            | Some validator \<Rightarrow> isl (validator v (parameter_of rule) allData)))"

definition rule_message :: "form_validator \<Rightarrow> string \<Rightarrow> string \<Rightarrow> string" where
  "rule_message fv field rule =
     (if ruleName_of rule = ''confirmPassword''
      then formatMessage fv ''confirmPassword'' [(''field'', Some (passwordField_of rule))]
      else formatMessage fv (ruleName_of rule)
             [(''min'', parameter_of rule), (''max'', parameter_of rule), (''field'', Some field)])"

definition failing_rules :: "form_validator \<Rightarrow> form_data \<Rightarrow> string \<Rightarrow> string list" where
  "failing_rules fv data field =
     filter (rule_fails fv (field_value data field) data) (field_rules fv field)"

definition no_rule_throws :: "form_validator \<Rightarrow> form_data \<Rightarrow> bool" where
  "no_rule_throws fv data =
     list_all (\<lambda>field. list_all (\<lambda>rule. \<not> rule_throws fv (field_value data field) data rule)
                         (field_rules fv field))
       (map fst (fv_rules fv))"

section \<open>Properties of the ratings\<close>


lemma round1_nearest: "\<bar>round1 q - q\<bar> \<le> 1 / 20"
proof -
  have "\<bar>of_int (round (q * 10)) - q * 10\<bar> \<le> 1 / 2"
    by (rule of_int_round_abs_le)
  then show ?thesis
    by (simp add: round1_def abs_le_iff field_simps)
qed












subsection \<open>One entry per user\<close>








section \<open>Properties of the similar games\<close>









section \<open>Properties of the votes\<close>

lemma addHelpfulVote_sets:
  "u \<noteq> review_userId r \<Longrightarrow>
   helpfulVotes (snd (addHelpfulVote u now r)) = finsert u (helpfulVotes r)
   \<and> unhelpfulVotes (snd (addHelpfulVote u now r)) = unhelpfulVotes r |-| {|u|}
   \<and> review_userId (snd (addHelpfulVote u now r)) = review_userId r"
  by (simp add: addHelpfulVote_def Let_def)

lemma addUnhelpfulVote_sets:
  "u \<noteq> review_userId r \<Longrightarrow>
   unhelpfulVotes (snd (addUnhelpfulVote u now r)) = finsert u (unhelpfulVotes r)
   \<and> helpfulVotes (snd (addUnhelpfulVote u now r)) = helpfulVotes r |-| {|u|}
   \<and> review_userId (snd (addUnhelpfulVote u now r)) = review_userId r"
  by (simp add: addUnhelpfulVote_def Let_def)

lemma vote_other:
  "voter c \<noteq> u \<Longrightarrow>
   (u |\<in>| helpfulVotes (vote c r) \<longleftrightarrow> u |\<in>| helpfulVotes r)
   \<and> (u |\<in>| unhelpfulVotes (vote c r) \<longleftrightarrow> u |\<in>| unhelpfulVotes r)
   \<and> review_userId (vote c r) = review_userId r"
  by (cases c) (auto simp add: addHelpfulVote_def addUnhelpfulVote_def removeVote_def Let_def)

lemma votes_other:
  "\<forall>c \<in> set cs. voter c \<noteq> u \<Longrightarrow>
   (u |\<in>| helpfulVotes (votes cs r) \<longleftrightarrow> u |\<in>| helpfulVotes r)
   \<and> (u |\<in>| unhelpfulVotes (votes cs r) \<longleftrightarrow> u |\<in>| unhelpfulVotes r)
   \<and> review_userId (votes cs r) = review_userId r"
proof (induction cs arbitrary: r)
  case Nil
  then show ?case by simp
next
  case (Cons c cs)
  from Cons.prems have c: "voter c \<noteq> u" and cs: "\<forall>c \<in> set cs. voter c \<noteq> u"
    by simp_all
  show ?case
    using Cons.IH [OF cs, of "vote c r"] vote_other [OF c, of r] by simp
qed

lemma addHelpfulVote_fresh:
  assumes "u \<noteq> review_userId r" and "\<not> u |\<in>| helpfulVotes r"
  shows "fst (addHelpfulVote u now r)
    \<and> u |\<in>| helpfulVotes (snd (addHelpfulVote u now r))
    \<and> \<not> u |\<in>| unhelpfulVotes (snd (addHelpfulVote u now r))
    \<and> stat_helpfulVotes (review_stats (snd (addHelpfulVote u now r)))
        = fcard (helpfulVotes (snd (addHelpfulVote u now r)))
    \<and> stat_unhelpfulVotes (review_stats (snd (addHelpfulVote u now r)))
        = fcard (unhelpfulVotes (snd (addHelpfulVote u now r)))"
  using assms by (simp add: addHelpfulVote_def Let_def)

lemma addUnhelpfulVote_fresh:
  assumes "u \<noteq> review_userId r" and "\<not> u |\<in>| unhelpfulVotes r"
  shows "fst (addUnhelpfulVote u now r)
    \<and> u |\<in>| unhelpfulVotes (snd (addUnhelpfulVote u now r))
    \<and> \<not> u |\<in>| helpfulVotes (snd (addUnhelpfulVote u now r))
    \<and> stat_helpfulVotes (review_stats (snd (addUnhelpfulVote u now r)))
        = fcard (helpfulVotes (snd (addUnhelpfulVote u now r)))
    \<and> stat_unhelpfulVotes (review_stats (snd (addUnhelpfulVote u now r)))
        = fcard (unhelpfulVotes (snd (addUnhelpfulVote u now r)))"
  using assms by (simp add: addUnhelpfulVote_def Let_def)

text \<open>
  Claim C2. For every review \<open>r\<close> and every voter \<open>u\<close> other than the author of
  the review (whose votes are refused): after \<open>u\<close> votes unhelpful, any calls by other
  voters follow, and \<open>u\<close> then calls \<open>addHelpfulVote\<close>, the voter is in the helpful
  set and not in the unhelpful set, and \<open>stats.helpfulVotes\<close> and
  \<open>stats.unhelpfulVotes\<close> are the sizes of the two sets. The same holds with helpful
  and unhelpful exchanged. A vote by the author is never cast: both methods return false
  and leave the review as it is.
\<close>

theorem opposite_vote_replaces:
  assumes author: "u \<noteq> review_userId r"
    and others: "\<forall>c \<in> set cs. voter c \<noteq> u"
  shows "(let r' = snd (addHelpfulVote u t2 (votes cs (snd (addUnhelpfulVote u t1 r)))) in
            u |\<in>| helpfulVotes r' \<and> \<not> u |\<in>| unhelpfulVotes r'
            \<and> stat_helpfulVotes (review_stats r') = fcard (helpfulVotes r')
            \<and> stat_unhelpfulVotes (review_stats r') = fcard (unhelpfulVotes r'))
       \<and> (let r' = snd (addUnhelpfulVote u t2 (votes cs (snd (addHelpfulVote u t1 r)))) in
            u |\<in>| unhelpfulVotes r' \<and> \<not> u |\<in>| helpfulVotes r'
            \<and> stat_helpfulVotes (review_stats r') = fcard (helpfulVotes r')
            \<and> stat_unhelpfulVotes (review_stats r') = fcard (unhelpfulVotes r'))
       \<and> addHelpfulVote (review_userId r) t1 r = (False, r)
       \<and> addUnhelpfulVote (review_userId r) t1 r = (False, r)"
proof -
  let ?a = "snd (addUnhelpfulVote u t1 r)"
  let ?b = "snd (addHelpfulVote u t1 r)"
  have a: "\<not> u |\<in>| helpfulVotes (votes cs ?a) \<and> review_userId (votes cs ?a) = review_userId r"
    using votes_other [OF others, of ?a] addUnhelpfulVote_sets [OF author, of t1] by simp
  have b: "\<not> u |\<in>| unhelpfulVotes (votes cs ?b) \<and> review_userId (votes cs ?b) = review_userId r"
    using votes_other [OF others, of ?b] addHelpfulVote_sets [OF author, of t1] by simp
  have "u \<noteq> review_userId (votes cs ?a)" "u \<noteq> review_userId (votes cs ?b)"
    using a b author by simp_all
  then show ?thesis
    using addHelpfulVote_fresh [of u "votes cs ?a" t2] addUnhelpfulVote_fresh [of u "votes cs ?b" t2] a b
    by (simp add: Let_def addHelpfulVote_def addUnhelpfulVote_def)
qed


text \<open>
  The theorem on a review by user 1: user 2 votes unhelpful, user 3 votes helpful, user 2
  votes helpful.
\<close>

theorem opposite_vote_replaces_witness:
  "Some (NumId 2) \<noteq> review_userId new_review
   \<and> voter (HelpfulVote (Some (NumId 3)) 2) \<noteq> Some (NumId 2)
   \<and> helpfulVotes (snd (addHelpfulVote (Some (NumId 2)) 3
        (votes [HelpfulVote (Some (NumId 3)) 2] (snd (addUnhelpfulVote (Some (NumId 2)) 1 new_review)))))
      = {|Some (NumId 2), Some (NumId 3)|}
   \<and> unhelpfulVotes (snd (addHelpfulVote (Some (NumId 2)) 3
        (votes [HelpfulVote (Some (NumId 3)) 2] (snd (addUnhelpfulVote (Some (NumId 2)) 1 new_review)))))
      = {||}
   \<and> stat_helpfulVotes (review_stats (snd (addHelpfulVote (Some (NumId 2)) 3
        (votes [HelpfulVote (Some (NumId 3)) 2] (snd (addUnhelpfulVote (Some (NumId 2)) 1 new_review))))))
      = 2
   \<and> stat_unhelpfulVotes (review_stats (snd (addHelpfulVote (Some (NumId 2)) 3
        (votes [HelpfulVote (Some (NumId 3)) 2] (snd (addUnhelpfulVote (Some (NumId 2)) 1 new_review))))))
      = 0"
  using opposite_vote_replaces [of "Some (NumId 2)" new_review "[HelpfulVote (Some (NumId 3)) 2]" 3 1]
  by (simp add: addHelpfulVote_def addUnhelpfulVote_def new_review_def Let_def fcard_finsert_if)

section \<open>Properties of friends and blocked users\<close>

lemma addActivity_fields:
  "friends (addActivity ty d now aid u) = friends u
   \<and> blockedUsers (addActivity ty d now aid u) = blockedUsers u
   \<and> user_id (addActivity ty d now aid u) = user_id u"
  by (simp add: addActivity_def Let_def)

lemma addFriend_result:
  "fst (addFriend v now aid u) = (\<not> v |\<in>| friends u \<and> v \<noteq> user_id u)"
  by (simp add: addFriend_def Let_def)

lemma addFriend_friends:
  "friends (snd (addFriend v now aid u)) =
     (if v |\<in>| friends u \<or> v = user_id u then friends u else finsert v (friends u))"
  by (simp add: addFriend_def Let_def addActivity_fields updateStats_def)

lemma addFriend_blockedUsers:
  "blockedUsers (snd (addFriend v now aid u)) = blockedUsers u"
  by (simp add: addFriend_def Let_def addActivity_fields updateStats_def)

text \<open>
  Claim C3, as the code has it. A \<open>blockUser\<close> call that returns true leaves the id
  blocked and out of the friends set; one that returns false (the id is already blocked,
  or is the user's own) changes nothing. \<open>addFriend\<close> does not look at
  \<open>blockedUsers\<close>: it returns false, leaving the user unchanged, exactly when the id is
  already a friend or is the user's own id; otherwise it returns true and adds the id to
  the friends set. It never changes \<open>blockedUsers\<close>.
\<close>

theorem blockUser_then_addFriend:
  "(fst (blockUser v u) \<longrightarrow>
       \<not> v |\<in>| friends (snd (blockUser v u)) \<and> v |\<in>| blockedUsers (snd (blockUser v u)))
   \<and> (\<not> fst (blockUser v u) \<longrightarrow> snd (blockUser v u) = u)
   \<and> fst (addFriend v now aid u) = (\<not> v |\<in>| friends u \<and> v \<noteq> user_id u)
   \<and> (\<not> fst (addFriend v now aid u) \<longrightarrow> snd (addFriend v now aid u) = u)
   \<and> (fst (addFriend v now aid u) \<longrightarrow>
        friends (snd (addFriend v now aid u)) = finsert v (friends u))
   \<and> blockedUsers (snd (addFriend v now aid u)) = blockedUsers u"
proof (intro conjI impI)
  assume "fst (blockUser v u)"
  then show "\<not> v |\<in>| friends (snd (blockUser v u))" "v |\<in>| blockedUsers (snd (blockUser v u))"
    by (simp_all add: blockUser_def Let_def split: if_splits)
next
  assume "\<not> fst (blockUser v u)"
  then show "snd (blockUser v u) = u"
    by (auto simp add: blockUser_def Let_def split: if_splits)
next
  show "fst (addFriend v now aid u) = (\<not> v |\<in>| friends u \<and> v \<noteq> user_id u)"
    by (rule addFriend_result)
next
  assume "\<not> fst (addFriend v now aid u)"
  then show "snd (addFriend v now aid u) = u"
    by (auto simp add: addFriend_def Let_def split: if_splits)
next
  assume "fst (addFriend v now aid u)"
  then show "friends (snd (addFriend v now aid u)) = finsert v (friends u)"
    by (simp add: addFriend_result addFriend_friends)
next
  show "blockedUsers (snd (addFriend v now aid u)) = blockedUsers u"
    by (rule addFriend_blockedUsers)
qed


text \<open>
  The theorem on user 1 with friend 2: blocking user 2 succeeds and empties the friends
  set; adding user 2, already a friend, is refused.
\<close>

theorem blockUser_then_addFriend_witness:
  "fst (blockUser (Some (NumId 2)) alice)
   \<and> friends (snd (blockUser (Some (NumId 2)) alice)) = {||}
   \<and> blockedUsers (snd (blockUser (Some (NumId 2)) alice)) = {|Some (NumId 2)|}
   \<and> \<not> fst (addFriend (Some (NumId 2)) 5 ''friend_add_5_x'' alice)
   \<and> snd (addFriend (Some (NumId 2)) 5 ''friend_add_5_x'' alice) = alice"
  using blockUser_then_addFriend [of "Some (NumId 2)" alice 5 "''friend_add_5_x''"]
  by (simp add: blockUser_def addFriend_def alice_def Let_def)

text \<open>
  Claim C3 as stated fails: after user 1 blocks user 2, \<open>addFriend\<close> with user 2
  returns true and puts user 2 back into the friends set while the block remains.
\<close>

theorem addFriend_blocked_counterexample:
  "Some (NumId 2) |\<in>| blockedUsers (snd (blockUser (Some (NumId 2)) alice))
   \<and> fst (addFriend (Some (NumId 2)) 5 ''friend_add_5_x'' (snd (blockUser (Some (NumId 2)) alice)))
   \<and> Some (NumId 2) |\<in>| friends (snd (addFriend (Some (NumId 2)) 5 ''friend_add_5_x''
        (snd (blockUser (Some (NumId 2)) alice))))
   \<and> friends (snd (addFriend (Some (NumId 2)) 5 ''friend_add_5_x''
        (snd (blockUser (Some (NumId 2)) alice))))
      \<noteq> friends (snd (blockUser (Some (NumId 2)) alice))"
  by (simp add: blockUser_def addFriend_def addActivity_def updateStats_def alice_def Let_def)

section \<open>Properties of the emitters\<close>

lemma entity_forEach_all:
  "called (entity_forEach ls data) = map listener_name ls
   \<and> thrown (entity_forEach ls data) = None
   \<and> logged (entity_forEach ls data) = List.map_filter (\<lambda>l. listener_callback l data) ls"
  by (induction ls) (auto simp add: Let_def List.map_filter_simps split: option.splits)

text \<open>
  The emitters of \<open>User\<close>, \<open>Game\<close> and \<open>Review\<close> do what claim C9 says: every listener
  of the event is called, every thrown error is logged, and no error leaves \<open>emit\<close>.
\<close>

lemma entity_emit_all:
  "listeners event = Some ls \<Longrightarrow>
   called (entity_emit listeners event data) = map listener_name ls
   \<and> thrown (entity_emit listeners event data) = None
   \<and> logged (entity_emit listeners event data) = List.map_filter (\<lambda>l. listener_callback l data) ls"
  by (simp add: entity_emit_def entity_forEach_all)

text \<open>
  Claim C9 at the shared \<open>EventEmitter\<close>, with a throwing listener subscribed before a
  sound one: the error is not caught and not logged, it leaves \<open>emit\<close>, and the second
  listener is never called. The entity emitter, on the same listeners, calls both and
  logs the error.
\<close>

theorem EventEmitter_emit_stops_at_throw:
  "EventEmitter_emit two_listeners ''change'' 0
     = \<lparr>called = [''faulty''], logged = [], thrown = Some ''boom''\<rparr>
   \<and> entity_emit two_listeners ''change'' 0
     = \<lparr>called = [''faulty'', ''sound''], logged = [''boom''], thrown = None\<rparr>"
  by (simp add: EventEmitter_emit_def entity_emit_def two_listeners_def faulty_def sound_def Let_def)

section \<open>Properties of the retries\<close>

lemma backoff_trace_step:  "a < m \<Longrightarrow> backoff_trace config a m
     = Attempt a # Delay (cfg_retryDelay config * 2 ^ a) # backoff_trace config (Suc a) m"
  by (simp add: backoff_trace_def upt_conv_Cons)

lemma backoff_trace_last: "backoff_trace config m m = [Attempt m]"
  by (simp add: backoff_trace_def)

lemma attempt_loop_503:
  assumes all: "\<forall>n. net n = HttpError 503"
  shows "attempt \<le> cfg_retries config \<Longrightarrow>
         attempt_loop config net attempt lastError
           = (Rejected (createErrorResponse (HttpError 503)),
              backoff_trace config attempt (cfg_retries config))"
proof (induction "cfg_retries config - attempt" arbitrary: attempt lastError)
  case 0
  then have "attempt = cfg_retries config" by simp
  then show ?case using all
    by (subst attempt_loop.simps) (simp add: no_retry_status_def backoff_trace_last)
next
  case (Suc d)
  then have lt: "attempt < cfg_retries config" by simp
  have "Suc attempt \<le> cfg_retries config" and "d = cfg_retries config - Suc attempt"
    using Suc.hyps(2) by simp_all
  then have ih: "attempt_loop config net (Suc attempt) (Some (HttpError 503))
           = (Rejected (createErrorResponse (HttpError 503)),
              backoff_trace config (Suc attempt) (cfg_retries config))"
    using Suc.hyps(1) by blast
  show ?case using all lt ih
    by (subst attempt_loop.simps) (simp add: no_retry_status_def backoff_trace_step)
qed

lemma attempt_loop_shape:
  "attempt \<le> cfg_retries config \<Longrightarrow>
   \<exists>m. attempt \<le> m \<and> m \<le> cfg_retries config
     \<and> snd (attempt_loop config net attempt lastError) = backoff_trace config attempt m
     \<and> (\<forall>k. attempt \<le> k \<and> k < m \<longrightarrow> \<not> ends_retries (net k))
     \<and> (m = cfg_retries config \<or> ends_retries (net m))"
proof (induction "cfg_retries config - attempt" arbitrary: attempt lastError)
  case 0
  then have eq: "attempt = cfg_retries config" by simp
  have "snd (attempt_loop config net attempt lastError) = [Attempt attempt]"
    using eq by (subst attempt_loop.simps) (auto split: attempt_outcome.splits)
  then show ?case using eq by (auto simp add: backoff_trace_last)
next
  case (Suc d)
  then have lt: "attempt < cfg_retries config" by simp
  have "Suc attempt \<le> cfg_retries config" and "d = cfg_retries config - Suc attempt"
    using Suc.hyps(2) by simp_all
  then obtain m where m: "Suc attempt \<le> m" "m \<le> cfg_retries config"
    "snd (attempt_loop config net (Suc attempt) (Some (net attempt)))
       = backoff_trace config (Suc attempt) m"
    "\<forall>k. Suc attempt \<le> k \<and> k < m \<longrightarrow> \<not> ends_retries (net k)"
    "m = cfg_retries config \<or> ends_retries (net m)"
    using Suc.hyps(1) by blast
  show ?case
  proof (cases "ends_retries (net attempt)")
    case True
    then have "snd (attempt_loop config net attempt lastError) = [Attempt attempt]"
      using lt
      by (subst attempt_loop.simps) (auto simp add: ends_retries_def split: attempt_outcome.splits)
    then show ?thesis
      using lt True by (auto simp add: backoff_trace_last intro!: exI [of _ attempt])
  next
    case False
    then have "snd (attempt_loop config net attempt lastError)
        = Attempt attempt # Delay (cfg_retryDelay config * 2 ^ attempt)
            # snd (attempt_loop config net (Suc attempt) (Some (net attempt)))"
      using lt
      by (subst attempt_loop.simps)
        (auto simp add: ends_retries_def split: attempt_outcome.splits prod.splits)
    then have tr: "snd (attempt_loop config net attempt lastError) = backoff_trace config attempt m"
      using m by (simp add: backoff_trace_step)
    have "\<forall>k. attempt \<le> k \<and> k < m \<longrightarrow> \<not> ends_retries (net k)"
    proof (intro allI impI)
      fix k assume "attempt \<le> k \<and> k < m"
      then have "k = attempt \<or> (Suc attempt \<le> k \<and> k < m)" by auto
      then show "\<not> ends_retries (net k)" using False m(4) by blast
    qed
    then show ?thesis using m tr by (auto intro!: exI [of _ m])
  qed
qed

text \<open>
  Claim C4. When every attempt fails with status 503, \<open>executeRequest\<close> makes the
  first attempt and then exactly \<open>retries\<close> further attempts, sleeping
  \<open>retryDelay * 2 ^ k\<close> between attempt \<open>k\<close> and attempt \<open>k + 1\<close>. When the first attempt
  fails with a status in [400, 500) other than 408 and 429, that attempt is the only one:
  no sleep and no retry, and the request is rejected with that status. Whatever the
  network does, the trace is the backoff trace up to some attempt \<open>m\<close> of at most
  \<open>retries\<close>: every attempt before \<open>m\<close> failed with an error that is retried, and
  attempt \<open>m\<close> is the last one allowed, or succeeded, or failed with a client error
  that is not retried.
\<close>

theorem executeRequest_retry_policy:
  "((\<forall>n. net n = HttpError 503) \<longrightarrow>
      snd (executeRequest config net)
        = concat (map (\<lambda>k. [Attempt k, Delay (cfg_retryDelay config * 2 ^ k)])
            [0..<cfg_retries config]) @ [Attempt (cfg_retries config)])
   \<and> (\<forall>s. net 0 = HttpError s \<and> 400 \<le> s \<and> s < 500 \<and> s \<noteq> 408 \<and> s \<noteq> 429 \<longrightarrow>
        executeRequest config net
          = (Rejected \<lparr>resp_ok = False, resp_status = s, resp_data = JNull\<rparr>, [Attempt 0]))
   \<and> (\<exists>m \<le> cfg_retries config.
        snd (executeRequest config net)
          = concat (map (\<lambda>k. [Attempt k, Delay (cfg_retryDelay config * 2 ^ k)]) [0..<m])
            @ [Attempt m]
        \<and> (\<forall>k < m. \<not> ends_retries (net k))
        \<and> (m = cfg_retries config \<or> ends_retries (net m)))"
proof (intro conjI impI allI)
  assume "\<forall>n. net n = HttpError 503"
  then show "snd (executeRequest config net)
        = concat (map (\<lambda>k. [Attempt k, Delay (cfg_retryDelay config * 2 ^ k)])
            [0..<cfg_retries config]) @ [Attempt (cfg_retries config)]"
    using attempt_loop_503 [of net 0 config None]
    by (simp add: executeRequest_def backoff_trace_def)
next
  fix s
  assume "net 0 = HttpError s \<and> 400 \<le> s \<and> s < 500 \<and> s \<noteq> 408 \<and> s \<noteq> 429"
  then show "executeRequest config net
          = (Rejected \<lparr>resp_ok = False, resp_status = s, resp_data = JNull\<rparr>, [Attempt 0])"
    unfolding executeRequest_def
    by (subst attempt_loop.simps) (simp add: no_retry_status_def createErrorResponse_def)
next
  show "\<exists>m \<le> cfg_retries config.
        snd (executeRequest config net)
          = concat (map (\<lambda>k. [Attempt k, Delay (cfg_retryDelay config * 2 ^ k)]) [0..<m])
            @ [Attempt m]
        \<and> (\<forall>k < m. \<not> ends_retries (net k))
        \<and> (m = cfg_retries config \<or> ends_retries (net m))"
    using attempt_loop_shape [of 0 config net None]
    by (auto simp add: executeRequest_def backoff_trace_def)
qed

text \<open>
  The theorem with the default configuration (3 retries, 1000 ms): four attempts and
  sleeps of 1000, 2000 and 4000 ms for status 503; one attempt for status 403.
\<close>

theorem executeRequest_retry_policy_witness:
  "executeRequest default_config (\<lambda>n. HttpError 503)
     = (Rejected \<lparr>resp_ok = False, resp_status = 503, resp_data = JNull\<rparr>,
        [Attempt 0, Delay 1000, Attempt 1, Delay 2000, Attempt 2, Delay 4000, Attempt 3])
   \<and> executeRequest default_config (\<lambda>n. HttpError 403)
     = (Rejected \<lparr>resp_ok = False, resp_status = 403, resp_data = JNull\<rparr>, [Attempt 0])"
proof -
  have a: "snd (executeRequest default_config (\<lambda>n. HttpError 503))
      = [Attempt 0, Delay 1000, Attempt 1, Delay 2000, Attempt 2, Delay 4000, Attempt 3]"
    using executeRequest_retry_policy [of "\<lambda>n. HttpError 503" default_config]
    by (simp add: default_config_def upt_conv_Cons)
  have b: "executeRequest default_config (\<lambda>n. HttpError 403)
      = (Rejected \<lparr>resp_ok = False, resp_status = 403, resp_data = JNull\<rparr>, [Attempt 0])"
    using executeRequest_retry_policy [of "\<lambda>n. HttpError 403" default_config]
    by simp
  have c: "fst (executeRequest default_config (\<lambda>n. HttpError 503))
      = Rejected \<lparr>resp_ok = False, resp_status = 503, resp_data = JNull\<rparr>"
    using attempt_loop_503 [of "\<lambda>n. HttpError 503" 0 default_config None]
    by (simp add: executeRequest_def createErrorResponse_def)
  from a b c show ?thesis by (simp add: prod_eq_iff)
qed

section \<open>Properties of the response cache\<close>

lemma executeRequest_first_ok:
  "net 0 = HttpOk status data \<Longrightarrow>
   executeRequest config net
     = (Resolved \<lparr>resp_ok = True, resp_status = status, resp_data = data\<rparr>, [Attempt 0])"
  unfolding executeRequest_def by (subst attempt_loop.simps) simp

lemma attempt_loop_attempts: "attempt \<le> cfg_retries config \<Longrightarrow>
   Attempt attempt \<in> set (snd (attempt_loop config net attempt lastError))"
  by (subst attempt_loop.simps) (auto split: attempt_outcome.splits prod.splits)

lemma executeRequest_attempts: "Attempt 0 \<in> set (snd (executeRequest config net))"
  unfolding executeRequest_def by (rule attempt_loop_attempts) simp

lemma attempt_loop_ok:
  "attempt_loop config net attempt lastError = (Resolved response, trace) \<Longrightarrow> resp_ok response"
proof (induction "cfg_retries config + 1 - attempt" arbitrary: attempt lastError trace)
  case 0
  then have "\<not> attempt \<le> cfg_retries config" by simp
  with "0.prems" show ?case
    by (subst (asm) attempt_loop.simps) (auto split: option.splits)
next
  case (Suc d)
  have ih: "attempt_loop config net (Suc attempt) (Some e) = (Resolved response, tr) \<Longrightarrow> resp_ok response"
    for e tr
    using Suc.hyps(1) [of "Suc attempt" "Some e" tr] Suc.hyps(2) by simp
  from Suc.prems show ?case
    by (subst (asm) attempt_loop.simps)
      (auto split: if_splits attempt_outcome.splits prod.splits option.splits dest: ih)
qed

lemma executeRequest_ok:
  "executeRequest config net = (Resolved response, trace) \<Longrightarrow> resp_ok response"
  unfolding executeRequest_def by (rule attempt_loop_ok)

lemma getFromCache_log: "net_log (snd (getFromCache key now st)) = net_log st"
  by (simp add: getFromCache_def split: option.splits)

lemma dispatch_resolved:
  assumes "cfg_cache config" and "cfg_method config = ''GET''"
    and "dispatch config now' net st = (Settled (Resolved response), st1)"
  shows "cache st1 (cfg_url config)
           = Some \<lparr>entry_data = resp_data response, entry_expiry = now' + cfg_cacheExpiry config,
                   entry_timestamp = now'\<rparr>"
proof -
  obtain result trace where ex: "executeRequest config net = (result, trace)"
    by (cases "executeRequest config net")
  with assms(3) have res: "result = Resolved response"
    by (auto simp add: dispatch_def Let_def split: settled.splits if_splits)
  with ex have "resp_ok response" by (auto dest: executeRequest_ok)
  with assms ex res show ?thesis
    by (auto simp add: dispatch_def Let_def setCache_def)
qed

lemma request_resolved:
  assumes c: "cfg_cache config" and m: "cfg_method config = ''GET''"
    and first: "request config now now' net st = (Settled (Resolved response), st1)"
  shows "cache st1 (cfg_url config)
           = Some \<lparr>entry_data = resp_data response, entry_expiry = now' + cfg_cacheExpiry config,
                   entry_timestamp = now'\<rparr>"
proof -
  have fc: "default_request_interceptor now config = config"
    using c by (simp add: default_request_interceptor_def)
  obtain cached st0 where g: "getFromCache (cfg_url config) now st = (cached, st0)"
    by (cases "getFromCache (cfg_url config) now st")
  from first have "dispatch config now' net st0 = (Settled (Resolved response), st1)"
    using c m fc g by (auto simp add: request_def Let_def split: if_splits)
  then show ?thesis using c m by (rule dispatch_resolved [rotated 2])
qed

text \<open>
  When the data of the first response is truthy, a second GET of the same URL with
  caching enabled, made before the entry expires, is served from the cache: the state,
  and with it the network log, is unchanged.
\<close>

lemma request_served_from_cache:
  assumes "cfg_cache config" and "cfg_method config = ''GET''"
    and "request config t1 t1' net st = (Settled (Resolved response), st1)"
    and "truthy (resp_data response)"
    and "cfg_cache config2" and "cfg_method config2 = ''GET''"
    and "cfg_url config2 = cfg_url config"
    and "t2 < t1' + cfg_cacheExpiry config"
  shows "request config2 t2 t2' net2 st1 = (FromCache (resp_data response), st1)"
proof -
  have fc: "default_request_interceptor t2 config2 = config2"
    using assms(5) by (simp add: default_request_interceptor_def)
  have "cache st1 (cfg_url config2)
           = Some \<lparr>entry_data = resp_data response, entry_expiry = t1' + cfg_cacheExpiry config,
                   entry_timestamp = t1'\<rparr>"
    using request_resolved [OF assms(1-3)] assms(7) by simp
  then have "getFromCache (cfg_url config2) t2 st1 = (resp_data response, st1)"
    using assms(8) by (simp add: getFromCache_def)
  then show ?thesis
    using assms(4-6) fc by (simp add: request_def Let_def)
qed

text \<open>
  At or after the expiry time the second GET goes to the network: it settles with what
  \<open>executeRequest\<close> yields and the network log grows by its attempts.
\<close>

lemma request_after_expiry:
  assumes "cfg_cache config" and "cfg_method config = ''GET''"
    and "request config t1 t1' net st = (Settled (Resolved response), st1)"
    and "cfg_cache config2" and "cfg_method config2 = ''GET''"
    and "cfg_url config2 = cfg_url config"
    and "t1' + cfg_cacheExpiry config \<le> t2"
  shows "fst (request config2 t2 t2' net2 st1) = Settled (fst (executeRequest config2 net2))
    \<and> net_log (snd (request config2 t2 t2' net2 st1))
        = net_log st1 @ snd (executeRequest config2 net2)"
proof -
  have fc: "default_request_interceptor t2 config2 = config2"
    using assms(4) by (simp add: default_request_interceptor_def)
  have "cache st1 (cfg_url config2)
           = Some \<lparr>entry_data = resp_data response, entry_expiry = t1' + cfg_cacheExpiry config,
                   entry_timestamp = t1'\<rparr>"
    using request_resolved [OF assms(1-3)] assms(6) by simp
  then have "getFromCache (cfg_url config2) t2 st1
      = (JNull, st1\<lparr>cache := (cache st1)(cfg_url config2 := None)\<rparr>)"
    using assms(7) by (simp add: getFromCache_def)
  then show ?thesis
    using assms(4,5) fc
    by (auto simp add: request_def dispatch_def Let_def setCache_def
        split: prod.splits settled.splits)
qed

lemma cached_config_fields:
  "cfg_cache cached_config" "cfg_method cached_config = ''GET''"
  "cfg_cacheExpiry cached_config = 300000"
  by (simp_all add: cached_config_def default_config_def)

text \<open>
  Claim C5 at a response whose data is falsy. A GET with caching enabled resolves at
  time 10 with the JSON number 0 as its data; the entry is stored with expiry 300010. A
  second GET of the same URL at time 1000, before the expiry, is not served from the
  cache: \<open>getFromCache\<close> returns the data 0, \<open>if (cached)\<close> takes it for a miss, and the
  request goes to the network again (the log holds two attempts).
\<close>

theorem request_falsy_data_refetched:
  "request cached_config 0 10 (\<lambda>n. HttpOk 200 (JNum 0)) new_service
     = (Settled (Resolved \<lparr>resp_ok = True, resp_status = 200, resp_data = JNum 0\<rparr>),
        \<lparr>cache = [cfg_url cached_config \<mapsto>
                    \<lparr>entry_data = JNum 0, entry_expiry = 300010, entry_timestamp = 10\<rparr>],
         net_log = [Attempt 0]\<rparr>)
   \<and> fst (request cached_config 1000 1010 (\<lambda>n. HttpOk 200 (JNum 0))
        (snd (request cached_config 0 10 (\<lambda>n. HttpOk 200 (JNum 0)) new_service)))
     = Settled (Resolved \<lparr>resp_ok = True, resp_status = 200, resp_data = JNum 0\<rparr>)
   \<and> net_log (snd (request cached_config 1000 1010 (\<lambda>n. HttpOk 200 (JNum 0))
        (snd (request cached_config 0 10 (\<lambda>n. HttpOk 200 (JNum 0)) new_service))))
     = [Attempt 0, Attempt 0]"
proof -
  have ex: "executeRequest cached_config (\<lambda>n. HttpOk 200 (JNum 0))
     = (Resolved \<lparr>resp_ok = True, resp_status = 200, resp_data = JNum 0\<rparr>, [Attempt 0])"
    by (rule executeRequest_first_ok) simp
  have first: "request cached_config 0 10 (\<lambda>n. HttpOk 200 (JNum 0)) new_service
     = (Settled (Resolved \<lparr>resp_ok = True, resp_status = 200, resp_data = JNum 0\<rparr>),
        \<lparr>cache = [cfg_url cached_config \<mapsto>
                    \<lparr>entry_data = JNum 0, entry_expiry = 300010, entry_timestamp = 10\<rparr>],
         net_log = [Attempt 0]\<rparr>)"
    by (simp add: request_def dispatch_def ex Let_def default_request_interceptor_def
        getFromCache_def setCache_def new_service_def cached_config_fields)
  have second: "request cached_config 1000 1010 (\<lambda>n. HttpOk 200 (JNum 0))
        \<lparr>cache = [cfg_url cached_config \<mapsto>
                    \<lparr>entry_data = JNum 0, entry_expiry = 300010, entry_timestamp = 10\<rparr>],
         net_log = [Attempt 0]\<rparr>
     = (Settled (Resolved \<lparr>resp_ok = True, resp_status = 200, resp_data = JNum 0\<rparr>),
        \<lparr>cache = [cfg_url cached_config \<mapsto>
                    \<lparr>entry_data = JNum 0, entry_expiry = 301010, entry_timestamp = 1010\<rparr>],
         net_log = [Attempt 0, Attempt 0]\<rparr>)"
    by (simp add: request_def dispatch_def ex Let_def default_request_interceptor_def
        getFromCache_def setCache_def cached_config_fields)
  show ?thesis
    by (simp add: first second)
qed

section \<open>Properties of the form validator\<close>

lemma validate_rules_step:
  "\<not> rule_throws fv v allData rule \<Longrightarrow>
   validate_rules fv field v allData (rule # rest) errors
     = validate_rules fv field v allData rest
         (if rule_fails fv v allData rule then errors @ [rule_message fv field rule] else errors)"
  by (cases "fv_customValidators fv (ruleName_of rule)")
    (auto simp add: Let_def rule_throws_def rule_fails_def rule_message_def passwordField_of_def
      split: sum.splits)

lemma validate_rules_collects:
  "list_all (\<lambda>rule. \<not> rule_throws fv v allData rule) rules \<Longrightarrow>
   validate_rules fv field v allData rules errors
     = Inr (errors @ map (rule_message fv field) (filter (rule_fails fv v allData) rules))"
proof (induction rules arbitrary: errors)
  case Nil
  then show ?case by simp
next
  case (Cons rule rest)
  from Cons.prems have nt: "\<not> rule_throws fv v allData rule"
    and rest: "list_all (\<lambda>rule. \<not> rule_throws fv v allData rule) rest"
    by simp_all
  show ?case
    by (simp only: validate_rules_step [OF nt] Cons.IH [OF rest]) simp
qed

lemma validateField_collects:
  assumes "list_all (\<lambda>rule. \<not> rule_throws fv (field_value data field) data rule) (field_rules fv field)"
  shows "validateField fv field (field_value data field) data
     = Inr \<lparr>fr_valid = (failing_rules fv data field = []),
            fr_errors = map (rule_message fv field) (failing_rules fv data field)\<rparr>"
  using validate_rules_collects [OF assms [unfolded field_rules_def], of field "[]"]
  by (simp add: validateField_def Let_def failing_rules_def field_rules_def)

lemma validate_fields_collects:
  "list_all (\<lambda>field. list_all (\<lambda>rule. \<not> rule_throws fv (field_value data field) data rule)
                         (field_rules fv field)) fs \<Longrightarrow>
   validate_fields fv data fs result
     = Inr \<lparr>vr_valid = (vr_valid result \<and> (\<forall>f \<in> set fs. failing_rules fv data f = [])),
            vr_errors = (\<lambda>f. if f \<in> set fs \<and> failing_rules fv data f \<noteq> []
                              then Some (rule_message fv f (hd (failing_rules fv data f)))
                              else vr_errors result f),
            vr_fieldErrors = (\<lambda>f. if f \<in> set fs \<and> failing_rules fv data f \<noteq> []
                              then Some (map (rule_message fv f) (failing_rules fv data f))
                              else vr_fieldErrors result f)\<rparr>"
proof (induction fs arbitrary: result)
  case Nil
  then show ?case by simp
next
  case (Cons field others)
  from Cons.prems
  have f: "list_all (\<lambda>rule. \<not> rule_throws fv (field_value data field) data rule) (field_rules fv field)"
    and rest: "list_all (\<lambda>field. list_all (\<lambda>rule. \<not> rule_throws fv (field_value data field) data rule)
                         (field_rules fv field)) others"
    by simp_all
  note vf = validateField_collects [OF f]
  note ih = Cons.IH [OF rest]
  show ?case
  proof (cases "failing_rules fv data field = []")
    case True
    then show ?thesis
      by (auto simp add: vf ih intro!: ext)
  next
    case False
    then show ?thesis
      by (auto simp add: vf ih hd_map intro!: ext)
  qed
qed

lemma validate_aggregates:
  assumes "no_rule_throws fv data"
  shows "validate fv data
     = Inr \<lparr>vr_valid = (\<forall>f \<in> set (map fst (fv_rules fv)). failing_rules fv data f = []),
            vr_errors = (\<lambda>f. if f \<in> set (map fst (fv_rules fv)) \<and> failing_rules fv data f \<noteq> []
                              then Some (rule_message fv f (hd (failing_rules fv data f)))
                              else None),
            vr_fieldErrors = (\<lambda>f. if f \<in> set (map fst (fv_rules fv)) \<and> failing_rules fv data f \<noteq> []
                              then Some (map (rule_message fv f) (failing_rules fv data f))
                              else None)\<rparr>"
  by (simp add: validate_def validate_fields_collects [OF assms [unfolded no_rule_throws_def]]
      cong: if_cong)


text \<open>
  When no validator throws on the data, \<open>validate\<close> returns, and its result is as
  claim C6 says: \<open>valid\<close> is false if and only if some declared field fails one of its
  rules; for a field that fails, \<open>errors[field]\<close> is the message of its first failing
  rule and \<open>fieldErrors[field]\<close> holds the messages of all its failing rules in order;
  every other field has no entry.
\<close>

theorem validate_valid_iff:
  assumes "no_rule_throws fv data"
  shows "\<exists>res. validate fv data = Inr res
    \<and> (\<not> vr_valid res \<longleftrightarrow>
         (\<exists>field \<in> set (map fst (fv_rules fv)). \<exists>rule \<in> set (field_rules fv field).
            rule_fails fv (field_value data field) data rule))
    \<and> (\<forall>field \<in> set (map fst (fv_rules fv)). failing_rules fv data field \<noteq> [] \<longrightarrow>
         vr_errors res field = Some (rule_message fv field (hd (failing_rules fv data field)))
         \<and> vr_fieldErrors res field
             = Some (map (rule_message fv field) (failing_rules fv data field)))
    \<and> (\<forall>field. field \<notin> set (map fst (fv_rules fv)) \<or> failing_rules fv data field = [] \<longrightarrow>
         vr_errors res field = None \<and> vr_fieldErrors res field = None)"
proof -
  have iff: "(\<forall>f \<in> set (map fst (fv_rules fv)). failing_rules fv data f = [])
      \<longleftrightarrow> \<not> (\<exists>field \<in> set (map fst (fv_rules fv)). \<exists>rule \<in> set (field_rules fv field).
            rule_fails fv (field_value data field) data rule)"
    by (auto simp add: failing_rules_def filter_empty_conv)
  show ?thesis
    unfolding validate_aggregates [OF assms] using iff by auto
qed

lemma card_number_altered:
  "no_rule_throws card_validator [''cardNumber'' \<mapsto> JStr ''4111 1111 1111 1112'']"
  "failing_rules card_validator [''cardNumber'' \<mapsto> JStr ''4111 1111 1111 1112''] ''cardNumber''
     = [''creditCard'']"
  "rule_message card_validator ''cardNumber'' ''creditCard''
     = ''Please enter a valid credit card number''"
  by code_simp+

text \<open>
  The theorem on the card number 4111 1111 1111 1112, which fails the Luhn check.
\<close>

theorem validate_valid_iff_witness:
  "no_rule_throws card_validator [''cardNumber'' \<mapsto> JStr ''4111 1111 1111 1112'']
   \<and> (\<exists>res. validate card_validator [''cardNumber'' \<mapsto> JStr ''4111 1111 1111 1112''] = Inr res
         \<and> \<not> vr_valid res
         \<and> vr_errors res ''cardNumber'' = Some ''Please enter a valid credit card number''
         \<and> vr_fieldErrors res ''cardNumber'' = Some [''Please enter a valid credit card number''])"
proof -
  obtain res where res:
    "validate card_validator [''cardNumber'' \<mapsto> JStr ''4111 1111 1111 1112''] = Inr res"
    "failing_rules card_validator [''cardNumber'' \<mapsto> JStr ''4111 1111 1111 1112''] ''cardNumber'' \<noteq> []
       \<longrightarrow> vr_errors res ''cardNumber''
           = Some (rule_message card_validator ''cardNumber''
               (hd (failing_rules card_validator [''cardNumber'' \<mapsto> JStr ''4111 1111 1111 1112'']
                  ''cardNumber'')))
         \<and> vr_fieldErrors res ''cardNumber''
           = Some (map (rule_message card_validator ''cardNumber'')
               (failing_rules card_validator [''cardNumber'' \<mapsto> JStr ''4111 1111 1111 1112'']
                  ''cardNumber''))"
    "\<not> vr_valid res \<longleftrightarrow>
         (\<exists>field \<in> set (map fst (fv_rules card_validator)). \<exists>rule \<in> set (field_rules card_validator field).
            rule_fails card_validator (field_value [''cardNumber'' \<mapsto> JStr ''4111 1111 1111 1112''] field)
              [''cardNumber'' \<mapsto> JStr ''4111 1111 1111 1112''] rule)"
    using validate_valid_iff [OF card_number_altered(1)]
    by (auto simp add: card_validator_def)
  have "rule_fails card_validator (field_value [''cardNumber'' \<mapsto> JStr ''4111 1111 1111 1112''] ''cardNumber'')
              [''cardNumber'' \<mapsto> JStr ''4111 1111 1111 1112''] ''creditCard''"
    by code_simp
  moreover have "''creditCard'' \<in> set (field_rules card_validator ''cardNumber'')"
    by code_simp
  moreover have "''cardNumber'' \<in> set (map fst (fv_rules card_validator))"
    by code_simp
  ultimately have "\<not> vr_valid res" using res(3) by blast
  then show ?thesis
    using res(1,2) card_number_altered by simp
qed

text \<open>
  Claim C6 at data without the field \<open>cardNumber\<close>, for the rules
  \<open>['required', 'creditCard']\<close> that \<open>ValidationRules.payment\<close> gives it. The field
  fails \<open>required\<close>, so the claim has \<open>validate\<close> return \<open>valid = false\<close>. All rules
  are run, and the validator \<open>creditCard\<close> calls \<open>value.replace\<close> on \<open>undefined\<close>:
  \<open>validate\<close> throws a \<open>TypeError\<close> and returns nothing.
\<close>

theorem validate_missing_card_number_throws:
  "required_validator (field_value Map.empty ''cardNumber'') (parameter_of ''required'') Map.empty
     = Inr False
   \<and> rule_fails card_validator (field_value Map.empty ''cardNumber'') Map.empty ''required''
   \<and> validate card_validator Map.empty
     = Inl ''TypeError: Cannot read properties of undefined (reading replace)''"
proof (intro conjI)
  show "required_validator (field_value Map.empty ''cardNumber'') (parameter_of ''required'')
      Map.empty = Inr False"
    by (simp add: field_value_def)
  show "rule_fails card_validator (field_value Map.empty ''cardNumber'') Map.empty ''required''"
    by (simp add: rule_fails_def ruleName_of_def parameter_of_def card_validator_def
        field_value_def)
  show "validate card_validator Map.empty
     = Inl ''TypeError: Cannot read properties of undefined (reading replace)''"
    by (simp add: validate_def validateField_def card_validator_def ruleName_of_def
        parameter_of_def field_value_def Let_def)
qed

text \<open>The validator accepts 4111111111111111 and rejects the number with its last digit altered.\<close>

lemma luhn_known_numbers:
  "creditCard_validator (JStr ''4111111111111111'') None Map.empty = Inr True
   \<and> creditCard_validator (JStr ''4111111111111112'') None Map.empty = Inr False"
  by code_simp

subsection \<open>The cache on truthy data\<close>

text \<open>
  The two lemmas on requests after a first response with truthy data, run on a first GET
  that resolves at time 10 with the number 5: a second GET at time 1000 is served from
  the cache although the network is down, and one at the expiry time 300010 is fetched.
\<close>

lemma first_request_five:
  "request cached_config 0 10 (\<lambda>n. HttpOk 200 (JNum 5)) new_service
     = (Settled (Resolved \<lparr>resp_ok = True, resp_status = 200, resp_data = JNum 5\<rparr>),
        \<lparr>cache = [cfg_url cached_config \<mapsto>
                    \<lparr>entry_data = JNum 5, entry_expiry = 300010, entry_timestamp = 10\<rparr>],
         net_log = [Attempt 0]\<rparr>)"
proof -
  have ex: "executeRequest cached_config (\<lambda>n. HttpOk 200 (JNum 5))
     = (Resolved \<lparr>resp_ok = True, resp_status = 200, resp_data = JNum 5\<rparr>, [Attempt 0])"
    by (rule executeRequest_first_ok) simp
  show ?thesis
    by (simp add: request_def dispatch_def ex Let_def default_request_interceptor_def
        getFromCache_def setCache_def new_service_def cached_config_fields)
qed

theorem request_served_from_cache_witness:
  "request cached_config 1000 1010 (\<lambda>n. NetworkError)
     \<lparr>cache = [cfg_url cached_config \<mapsto>
                 \<lparr>entry_data = JNum 5, entry_expiry = 300010, entry_timestamp = 10\<rparr>],
      net_log = [Attempt 0]\<rparr>
   = (FromCache (JNum 5),
      \<lparr>cache = [cfg_url cached_config \<mapsto>
                 \<lparr>entry_data = JNum 5, entry_expiry = 300010, entry_timestamp = 10\<rparr>],
       net_log = [Attempt 0]\<rparr>)"
  using request_served_from_cache [OF cached_config_fields(1,2) first_request_five _
      cached_config_fields(1,2) refl, of 1000 1010 "\<lambda>n. NetworkError"]
  by (simp add: cached_config_fields)

theorem request_after_expiry_witness:
  "fst (request cached_config 300010 300020 (\<lambda>n. HttpOk 200 (JNum 6))
     \<lparr>cache = [cfg_url cached_config \<mapsto>
                 \<lparr>entry_data = JNum 5, entry_expiry = 300010, entry_timestamp = 10\<rparr>],
      net_log = [Attempt 0]\<rparr>)
     = Settled (Resolved \<lparr>resp_ok = True, resp_status = 200, resp_data = JNum 6\<rparr>)
   \<and> net_log (snd (request cached_config 300010 300020 (\<lambda>n. HttpOk 200 (JNum 6))
     \<lparr>cache = [cfg_url cached_config \<mapsto>
                 \<lparr>entry_data = JNum 5, entry_expiry = 300010, entry_timestamp = 10\<rparr>],
      net_log = [Attempt 0]\<rparr>))
     = [Attempt 0, Attempt 0]"
proof -
  have ex: "executeRequest cached_config (\<lambda>n. HttpOk 200 (JNum 6))
     = (Resolved \<lparr>resp_ok = True, resp_status = 200, resp_data = JNum 6\<rparr>, [Attempt 0])"
    by (rule executeRequest_first_ok) simp
  show ?thesis
    using request_after_expiry [OF cached_config_fields(1,2) first_request_five
        cached_config_fields(1,2) refl, of 300010 300020 "\<lambda>n. HttpOk 200 (JNum 6)"]
    by (simp add: cached_config_fields ex)
qed

end
